theory Spec2Isabelle
  imports
    Main
    "HOL-Library.AList"
    "HOL-Library.Char_ord"
    "HOL-Library.List_Lexorder"
    "HOL-Library.Multiset"
begin

section \<open>Values of the memory file\<close>

text \<open>
  \<^verbatim>\<open>scripts/memory_sync.py\<close> works on what \<^verbatim>\<open>json.load\<close> returns: dictionaries,
  lists, strings, integers, booleans and \<^verbatim>\<open>None\<close>. A dictionary is an association
  list in insertion order (a Python \<^verbatim>\<open>dict\<close> has each key once); a \<^verbatim>\<open>str\<close> is a
  \<open>string\<close>, one \<open>char\<close> for each character. JSON numbers with a fraction are
  left out of the embedding.
\<close>

datatype json =
    JNull
  | JBool bool
  | JInt int
  | JStr string
  | JArr "json list"
  | JObj "(string \<times> json) list"

type_synonym pydict = "(string \<times> json) list"

text \<open>The exceptions the script can meet; each \<^verbatim>\<open>raise\<close> is a value \<open>Inl e\<close>.\<close>

datatype error =
    KeyError string
  | TypeError
  | AttributeError
  | IsADirectoryError
  | Unsupported

definition then_do :: "error + 'a \<Rightarrow> ('a \<Rightarrow> error + 'b) \<Rightarrow> error + 'b" where
  "then_do m f = (case m of Inl e \<Rightarrow> Inl e | Inr x \<Rightarrow> f x)"

lemma then_do_cong [fundef_cong]:
  "m = m' \<Longrightarrow> (\<And>x. m' = Inr x \<Longrightarrow> f x = f' x) \<Longrightarrow> then_do m f = then_do m' f'"
  by (cases m') (simp_all add: then_do_def)

subsection \<open>The Python operations the script uses\<close>

text \<open>\<^verbatim>\<open>d.get(k, default)\<close> on a dictionary.\<close>

definition dict_get :: "pydict \<Rightarrow> string \<Rightarrow> json \<Rightarrow> json" where
  "dict_get d k dflt = (case map_of d k of None \<Rightarrow> dflt | Some v \<Rightarrow> v)"

text \<open>\<^verbatim>\<open>x[k]\<close> with a string \<open>k\<close>: \<^verbatim>\<open>KeyError\<close> on a dictionary without the key,
  \<^verbatim>\<open>TypeError\<close> on every other JSON value.\<close>

fun subscript :: "json \<Rightarrow> string \<Rightarrow> error + json" where
  "subscript (JObj d) k = (case map_of d k of None \<Rightarrow> Inl (KeyError k) | Some v \<Rightarrow> Inr v)"
| "subscript _ k = Inl TypeError"

text \<open>\<^verbatim>\<open>for x in v\<close>: a list gives its elements, a dictionary its keys, a string
  its characters; nothing else is iterable.\<close>

fun iterate :: "json \<Rightarrow> error + json list" where
  "iterate (JArr xs) = Inr xs"
| "iterate (JObj d) = Inr (map (\<lambda>kv. JStr (fst kv)) d)"
| "iterate (JStr s) = Inr (map (\<lambda>c. JStr [c]) s)"
| "iterate _ = Inl TypeError"

text \<open>Membership in a Python \<^verbatim>\<open>set\<close> goes through \<^verbatim>\<open>hash\<close> and \<^verbatim>\<open>==\<close>: lists and
  dictionaries are unhashable, \<^verbatim>\<open>True == 1\<close> and \<^verbatim>\<open>False == 0\<close>.\<close>

datatype hkey = HNone | HNum int | HStr string

fun hash_key :: "json \<Rightarrow> error + hkey" where
  "hash_key JNull = Inr HNone"
| "hash_key (JBool b) = Inr (HNum (if b then 1 else 0))"
| "hash_key (JInt i) = Inr (HNum i)"
| "hash_key (JStr s) = Inr (HStr s)"
| "hash_key (JArr xs) = Inl TypeError"
| "hash_key (JObj d) = Inl TypeError"

text \<open>\<^verbatim>\<open>d[k].append(x)\<close>: \<^verbatim>\<open>KeyError\<close> without the key, \<^verbatim>\<open>AttributeError\<close> when
  the value is no list.\<close>

definition list_append :: "pydict \<Rightarrow> string \<Rightarrow> json \<Rightarrow> error + pydict" where
  "list_append d k x =
     (case map_of d k of
        None \<Rightarrow> Inl (KeyError k)
      | Some (JArr xs) \<Rightarrow> Inr (AList.update k (JArr (xs @ [x])) d)
      | Some _ \<Rightarrow> Inl AttributeError)"

text \<open>\<^verbatim>\<open>s.startswith(prefix)\<close>: only a string has the method.\<close>

fun startswith :: "json \<Rightarrow> string \<Rightarrow> error + bool" where
  "startswith (JStr s) p = Inr (take (length p) s = p)"
| "startswith _ p = Inl AttributeError"

text \<open>\<^verbatim>\<open>{**base, **extra}\<close>: the keys of \<open>extra\<close>, left to right, replace or extend.\<close>

definition dict_merge :: "pydict \<Rightarrow> pydict \<Rightarrow> pydict" where
  "dict_merge base extra = fold (\<lambda>kv d. AList.update (fst kv) (snd kv) d) extra base"

text \<open>\<^verbatim>\<open>f"{n:03d}"\<close>: decimal digits, padded with zeros to at least three.\<close>

definition digit_char :: "nat \<Rightarrow> char" where
  "digit_char d = char_of (48 + d)"

fun decimal :: "nat \<Rightarrow> string" where
  "decimal n = (if n < 10 then [digit_char n] else decimal (n div 10) @ [digit_char (n mod 10)])"

definition format_03d :: "nat \<Rightarrow> string" where
  "format_03d n = replicate (3 - length (decimal n)) (CHR ''0'') @ decimal n"

subsection \<open>Sorting by \<^verbatim>\<open>x['metadata']['timestamp']\<close>\<close>

definition timestamp_key :: "json \<Rightarrow> error + json" where
  "timestamp_key x = then_do (subscript x ''metadata'') (\<lambda>m. subscript m ''timestamp'')"

fun map_err :: "('a \<Rightarrow> error + 'b) \<Rightarrow> 'a list \<Rightarrow> error + 'b list" where
  "map_err f [] = Inr []"
| "map_err f (x # xs) =
     then_do (f x) (\<lambda>y. then_do (map_err f xs) (\<lambda>ys. Inr (y # ys)))"

fun is_str :: "json \<Rightarrow> bool" where
  "is_str (JStr s) = True"
| "is_str _ = False"

fun is_num :: "json \<Rightarrow> bool" where
  "is_num (JInt i) = True"
| "is_num (JBool b) = True"
| "is_num _ = False"

fun is_arr :: "json \<Rightarrow> bool" where
  "is_arr (JArr xs) = True"
| "is_arr _ = False"

fun str_of :: "json \<Rightarrow> string" where
  "str_of (JStr s) = s"
| "str_of _ = []"

fun num_of :: "json \<Rightarrow> int" where
  "num_of (JInt i) = i"
| "num_of (JBool b) = (if b then 1 else 0)"
| "num_of _ = 0"

definition str_key :: "json \<Rightarrow> string" where
  "str_key x = (case timestamp_key x of Inl e \<Rightarrow> [] | Inr k \<Rightarrow> str_of k)"

definition num_key :: "json \<Rightarrow> int" where
  "num_key x = (case timestamp_key x of Inl e \<Rightarrow> 0 | Inr k \<Rightarrow> num_of k)"

text \<open>
  \<^verbatim>\<open>list.sort(key=...)\<close> computes every key first (the first failing one raises), then
  sorts stably with \<^verbatim>\<open><\<close> on the keys. With fewer than two entries nothing is
  compared. Strings compare with strings and numbers with numbers; a comparison across
  the two, or one with \<^verbatim>\<open>None\<close> or a dictionary, raises \<^verbatim>\<open>TypeError\<close>. Keys that are
  lists compare element by element and whether that raises depends on the pairs the
  sort happens to compare: the embedding does not follow it and answers \<open>Unsupported\<close>.
\<close>

definition list_sort :: "json list \<Rightarrow> error + json list" where
  "list_sort xs =
     then_do (map_err timestamp_key xs) (\<lambda>ks.
       if length xs \<le> 1 then Inr xs
       else if list_all is_str ks then Inr (sort_key str_key xs)
       else if list_all is_num ks then Inr (sort_key num_key xs)
       else if list_ex is_arr ks then Inl Unsupported
       else Inl TypeError)"

text \<open>\<^verbatim>\<open>d['entries'].sort(key=lambda x: x['metadata']['timestamp'])\<close>.\<close>

definition sort_entries :: "pydict \<Rightarrow> error + pydict" where
  "sort_entries d =
     (case map_of d ''entries'' of
        None \<Rightarrow> Inl (KeyError ''entries'')
      | Some (JArr xs) \<Rightarrow> then_do (list_sort xs) (\<lambda>ys. Inr (AList.update ''entries'' (JArr ys) d))
      | Some _ \<Rightarrow> Inl AttributeError)"

section \<open>The file system\<close>

text \<open>
  A path holds a directory, a file that \<^verbatim>\<open>json.load\<close> rejects with
  \<^verbatim>\<open>JSONDecodeError\<close>, or a file that it parses to a value; \<^verbatim>\<open>json.dump(v, f, indent=2)\<close>
  writes the text that parses back to \<open>v\<close>. Whether \<^verbatim>\<open>os.rename\<close> and the write
  meet an I/O error is a property of the environment: \<open>rename_fails\<close> and
  \<open>write_outcome\<close> say so for each path. A write can fail in \<^verbatim>\<open>open\<close>, before the file
  exists, or in \<^verbatim>\<open>json.dump\<close>, which leaves a truncated file.
\<close>

datatype node = Directory | Malformed | JsonText json

datatype outcome = WriteOk | OpenFails | DumpFails

record filesystem =
  nodes :: "string \<Rightarrow> node option"
  rename_fails :: "string \<Rightarrow> string \<Rightarrow> bool"
  write_outcome :: "string \<Rightarrow> outcome"

text \<open>\<^verbatim>\<open>os.rename(src, dst)\<close> replaces a file by a file and fills a free name; a file
  never replaces a directory, nor a directory a file.\<close>

definition os_rename :: "filesystem \<Rightarrow> string \<Rightarrow> string \<Rightarrow> filesystem option" where
  "os_rename fs src dst =
     (if rename_fails fs src dst then None
      else case (nodes fs src, nodes fs dst) of
        (None, _) \<Rightarrow> None
      | (Some Directory, Some Malformed) \<Rightarrow> None
      | (Some Directory, Some (JsonText v)) \<Rightarrow> None
      | (Some Malformed, Some Directory) \<Rightarrow> None
      | (Some (JsonText v), Some Directory) \<Rightarrow> None
      | (Some n, _) \<Rightarrow> Some (fs\<lparr>nodes := (nodes fs)(dst := Some n, src := None)\<rparr>))"

section \<open>\<^verbatim>\<open>load_memory\<close>\<close>

definition campbell_motto :: string where
  "campbell_motto = ''Ne Obliviscaris''"

text \<open>
  The result is \<open>Inr None\<close> where the function returns \<^verbatim>\<open>None\<close>, \<open>Inr (Some memory)\<close>
  where it returns the dictionary, and \<open>Inl e\<close> where an exception leaves it: the
  \<^verbatim>\<open>except\<close> clause catches \<^verbatim>\<open>FileNotFoundError\<close> and \<^verbatim>\<open>JSONDecodeError\<close> only, so
  \<^verbatim>\<open>open\<close> on a directory and \<^verbatim>\<open>memory.get\<close> on a value that is no dictionary raise.
\<close>

definition load_memory :: "filesystem \<Rightarrow> string \<Rightarrow> error + pydict option" where
  "load_memory fs file_path =
     (case nodes fs file_path of
        None \<Rightarrow> Inr None
      | Some Directory \<Rightarrow> Inl IsADirectoryError
      | Some Malformed \<Rightarrow> Inr None
      | Some (JsonText (JObj memory)) \<Rightarrow>
          (if dict_get memory ''campbell_motto'' JNull \<noteq> JStr campbell_motto then Inr None
           else Inr (Some memory))
      | Some (JsonText _) \<Rightarrow> Inl AttributeError)"

section \<open>\<^verbatim>\<open>save_memory\<close>\<close>

text \<open>Every exception is caught and turned into \<^verbatim>\<open>False\<close>; the file system is
  returned as the failure left it.\<close>

definition save_memory :: "filesystem \<Rightarrow> pydict \<Rightarrow> string \<Rightarrow> filesystem \<times> bool" where
  "save_memory fs memory file_path =
     (case (if nodes fs file_path = None then Some fs
            else os_rename fs file_path (file_path @ ''.backup'')) of
        None \<Rightarrow> (fs, False)
      | Some fs1 \<Rightarrow>
          (case write_outcome fs1 file_path of
             OpenFails \<Rightarrow> (fs1, False)
           | DumpFails \<Rightarrow> (fs1\<lparr>nodes := (nodes fs1)(file_path := Some Malformed)\<rparr>, False)
           | WriteOk \<Rightarrow>
               (fs1\<lparr>nodes := (nodes fs1)(file_path := Some (JsonText (JObj memory)))\<rparr>, True)))"

section \<open>\<^verbatim>\<open>merge_memories\<close>\<close>

text \<open>\<^verbatim>\<open>{entry['id'] for entry in ...}\<close>, as the list of the hashed ids.\<close>

fun collect_ids :: "json list \<Rightarrow> error + hkey list" where
  "collect_ids [] = Inr []"
| "collect_ids (entry # es) =
     then_do (subscript entry ''id'') (\<lambda>i.
     then_do (hash_key i) (\<lambda>h.
     then_do (collect_ids es) (\<lambda>hs. Inr (h # hs))))"

text \<open>The loop over the remote entries. \<open>local_ids\<close> is computed once, before the
  loop, and the \<^verbatim>\<open>print\<close> after the \<^verbatim>\<open>append\<close> reads \<^verbatim>\<open>entry['source']\<close>.\<close>

fun merge_loop :: "hkey list \<Rightarrow> json list \<Rightarrow> pydict \<Rightarrow> error + pydict" where
  "merge_loop local_ids [] local = Inr local"
| "merge_loop local_ids (entry # rest) local =
     then_do (subscript entry ''id'') (\<lambda>i.
     then_do (hash_key i) (\<lambda>h.
       if h \<notin> set local_ids then
         then_do (list_append local ''entries'' entry) (\<lambda>local'.
         then_do (subscript entry ''source'') (\<lambda>src.
         merge_loop local_ids rest local'))
       else merge_loop local_ids rest local))"

text \<open>
  \<open>now\<close> is \<^verbatim>\<open>datetime.utcnow().isoformat() + 'Z'\<close>. The dictionaries are passed by
  value: \<open>local\<close> and \<open>remote\<close> are taken not to share their \<^verbatim>\<open>entries\<close> list, or to
  be such that nothing is appended.
\<close>

definition merge_memories :: "pydict \<Rightarrow> pydict \<Rightarrow> string \<Rightarrow> error + pydict" where
  "merge_memories local remote now =
     then_do (iterate (dict_get local ''entries'' (JArr []))) (\<lambda>les.
     then_do (collect_ids les) (\<lambda>local_ids.
     then_do (iterate (dict_get remote ''entries'' (JArr []))) (\<lambda>res.
     then_do (merge_loop local_ids res local) (\<lambda>local1.
     then_do (sort_entries local1) (\<lambda>local2.
     Inr (AList.update ''timestamp'' (JStr now) local2))))))"

section \<open>\<^verbatim>\<open>add_entry\<close>\<close>

text \<open>\<^verbatim>\<open>[e['id'] for e in ... if e['id'].startswith(today)]\<close>.\<close>

fun existing_ids :: "string \<Rightarrow> json list \<Rightarrow> error + json list" where
  "existing_ids today [] = Inr []"
| "existing_ids today (e # es) =
     then_do (subscript e ''id'') (\<lambda>i.
     then_do (startswith i today) (\<lambda>b.
     then_do (existing_ids today es) (\<lambda>ids.
     Inr (if b then i # ids else ids))))"

text \<open>
  The three readings of the clock are parameters: \<open>today\<close> is
  \<^verbatim>\<open>utcnow().strftime('%Y%m%d')\<close>, \<open>now1\<close> and \<open>now2\<close> are the two later
  \<^verbatim>\<open>utcnow().isoformat() + 'Z'\<close>. \<open>metadata\<close> is \<open>None\<close> for the default argument.
\<close>

definition new_entry ::
  "string \<Rightarrow> string \<Rightarrow> string \<Rightarrow> string \<Rightarrow> pydict option \<Rightarrow> string \<Rightarrow> json" where
  "new_entry entry_id entry_type content source metadata now1 =
     JObj [(''id'', JStr entry_id),
           (''type'', JStr entry_type),
           (''content'', JStr (take 200 content)),
           (''source'', JStr source),
           (''metadata'', JObj (dict_merge [(''timestamp'', JStr now1)]
               (case metadata of None \<Rightarrow> [] | Some m \<Rightarrow> m)))]"

definition add_entry ::
  "pydict \<Rightarrow> string \<Rightarrow> string \<Rightarrow> string \<Rightarrow> pydict option \<Rightarrow> string \<Rightarrow> string \<Rightarrow> string
     \<Rightarrow> error + pydict" where
  "add_entry memory entry_type content source metadata today now1 now2 =
     then_do (iterate (dict_get memory ''entries'' (JArr []))) (\<lambda>es.
     then_do (existing_ids today es) (\<lambda>ids.
       let next_num = length ids + 1;
           entry_id = today @ ''-'' @ format_03d next_num
       in then_do
            (list_append memory ''entries''
               (new_entry entry_id entry_type content source metadata now1))
            (\<lambda>memory'. Inr (AList.update ''timestamp'' (JStr now2) memory'))))"

section \<open>\<^verbatim>\<open>sync_with_remote\<close>\<close>

text \<open>\<open>now0\<close> is the clock reading for a new document; fetching the remote is not
  implemented in the script, so nothing is merged.\<close>

definition new_document :: "string \<Rightarrow> pydict" where
  "new_document now0 =
     [(''version'', JStr ''20260213-0.1''),
      (''timestamp'', JStr now0),
      (''campbell_motto'', JStr ''Ne Obliviscaris''),
      (''entries'', JArr [])]"

definition sync_with_remote ::
  "filesystem \<Rightarrow> string \<Rightarrow> string \<Rightarrow> string \<Rightarrow> string \<Rightarrow> string \<Rightarrow> string \<Rightarrow> string
     \<Rightarrow> error + filesystem \<times> bool" where
  "sync_with_remote fs local_path remote_url source_id now0 today now1 now2 =
     then_do (load_memory fs local_path) (\<lambda>loaded.
       let local_memory = (case loaded of None \<Rightarrow> new_document now0 | Some m \<Rightarrow> m)
       in then_do
            (add_entry local_memory ''action'' (''Memory sync attempted with '' @ remote_url)
               source_id
               (Some [(''sync_status'', JStr ''local_only''), (''remote_url'', JStr remote_url)])
               today now1 now2)
            (\<lambda>local_memory'. Inr (save_memory fs local_memory' local_path)))"

section \<open>What the specification speaks of\<close>

text \<open>The entries of a document, in their order.\<close>

definition entries_of :: "pydict \<Rightarrow> json list" where
  "entries_of d = (case map_of d ''entries'' of Some (JArr es) \<Rightarrow> es | _ \<Rightarrow> [])"

text \<open>Entry ids are unique within the document: every entry has an id, and no two
  ids are equal as Python compares them.\<close>

definition ids_unique :: "pydict \<Rightarrow> bool" where
  "ids_unique d = (case collect_ids (entries_of d) of Inl e \<Rightarrow> False | Inr hs \<Rightarrow> distinct hs)"

text \<open>Ascending order of two timestamps: strings with strings, numbers with numbers.\<close>

definition ts_le :: "json \<Rightarrow> json \<Rightarrow> bool" where
  "ts_le a b =
     (if is_str a \<and> is_str b then str_of a \<le> str_of b
      else if is_num a \<and> is_num b then num_of a \<le> num_of b
      else False)"

text \<open>The entries are sorted ascending by \<^verbatim>\<open>metadata.timestamp\<close>: every entry has
  one, and each is at most every later one.\<close>

definition entries_sorted :: "pydict \<Rightarrow> bool" where
  "entries_sorted d =
     (case map_err timestamp_key (entries_of d) of
        Inl e \<Rightarrow> False
      | Inr ks \<Rightarrow> sorted_wrt ts_le ks)"

text \<open>
  The part of the data model that the functions read: \<^verbatim>\<open>entries\<close> is a list, and each
  entry is a dictionary with a string \<^verbatim>\<open>id\<close>, a \<^verbatim>\<open>source\<close> and a \<^verbatim>\<open>metadata\<close> dictionary
  whose \<^verbatim>\<open>timestamp\<close> is a string.
\<close>

definition has_str :: "pydict \<Rightarrow> string \<Rightarrow> bool" where
  "has_str d k = (case map_of d k of Some (JStr s) \<Rightarrow> True | _ \<Rightarrow> False)"

fun well_formed_entry :: "json \<Rightarrow> bool" where
  "well_formed_entry (JObj e) =
     (has_str e ''id'' \<and> map_of e ''source'' \<noteq> None \<and>
      (case map_of e ''metadata'' of Some (JObj m) \<Rightarrow> has_str m ''timestamp'' | _ \<Rightarrow> False))"
| "well_formed_entry _ = False"

definition well_formed :: "pydict \<Rightarrow> bool" where
  "well_formed d =
     (case map_of d ''entries'' of Some (JArr es) \<Rightarrow> list_all well_formed_entry es | _ \<Rightarrow> False)"



text \<open>The per-day sequence number of an id \<^verbatim>\<open><date>-<digits>\<close>, read back as a
  number; \<open>None\<close> for an id of another day or another form.\<close>

fun digit_value :: "char \<Rightarrow> nat option" where
  "digit_value c =
     (if 48 \<le> (of_char c :: nat) \<and> (of_char c :: nat) \<le> 57 then Some (of_char c - 48) else None)"

fun parse_decimal :: "nat \<Rightarrow> string \<Rightarrow> nat option" where
  "parse_decimal acc [] = Some acc"
| "parse_decimal acc (c # cs) =
     (case digit_value c of None \<Rightarrow> None | Some v \<Rightarrow> parse_decimal (10 * acc + v) cs)"

definition day_sequence :: "string \<Rightarrow> string \<Rightarrow> nat option" where
  "day_sequence today entry_id =
     (let p = today @ ''-''; rest = drop (length p) entry_id
      in if take (length p) entry_id = p \<and> rest \<noteq> [] then parse_decimal 0 rest else None)"

text \<open>The hashed id of an entry, as \<^verbatim>\<open>merge_memories\<close> reads it; an entry of the
  remote is fresh when its id is not among the local ones.\<close>

definition entry_hash :: "json \<Rightarrow> error + hkey" where
  "entry_hash e = then_do (subscript e ''id'') hash_key"

definition fresh :: "hkey list \<Rightarrow> json \<Rightarrow> bool" where
  "fresh ids e = (case entry_hash e of Inl x \<Rightarrow> False | Inr h \<Rightarrow> h \<notin> set ids)"

definition the_hash :: "json \<Rightarrow> hkey" where
  "the_hash e = (case entry_hash e of Inl x \<Rightarrow> HNone | Inr h \<Rightarrow> h)"

definition the_key :: "json \<Rightarrow> json" where
  "the_key x = (case timestamp_key x of Inl e \<Rightarrow> JNull | Inr k \<Rightarrow> k)"

text \<open>A file system with one path in use, where no rename and no write fails.\<close>

definition disk :: "string \<Rightarrow> node \<Rightarrow> filesystem" where
  "disk path n =
     \<lparr>nodes = (\<lambda>p. if p = path then Some n else None),
      rename_fails = (\<lambda>src dst. False),
      write_outcome = (\<lambda>p. WriteOk)\<rparr>"

text \<open>The \<^verbatim>\<open>metadata.timestamp\<close> of the entry that \<^verbatim>\<open>add_entry\<close> builds: the clock
  reading, unless the metadata argument brings a \<^verbatim>\<open>timestamp\<close> of its own.\<close>

definition new_timestamp :: "pydict option \<Rightarrow> string \<Rightarrow> json" where
  "new_timestamp metadata now1 =
     dict_get (dict_merge [(''timestamp'', JStr now1)] (case metadata of None \<Rightarrow> [] | Some m \<Rightarrow> m))
       ''timestamp'' JNull"

text \<open>The id of an entry as a string (empty when there is none).\<close>

definition entry_id_str :: "json \<Rightarrow> string" where
  "entry_id_str e = (case subscript e ''id'' of Inr (JStr s) \<Rightarrow> s | _ \<Rightarrow> [])"

text \<open>Sample data: an entry with a given id and timestamp, and a document with
  given entries.\<close>

definition mk_entry :: "string \<Rightarrow> string \<Rightarrow> json" where
  "mk_entry entry_id ts =
     JObj [(''id'', JStr entry_id),
           (''type'', JStr ''note''),
           (''content'', JStr ''remembered''),
           (''source'', JStr ''heron-02''),
           (''metadata'', JObj [(''timestamp'', JStr ts)])]"

definition mk_doc :: "json list \<Rightarrow> pydict" where
  "mk_doc es =
     [(''version'', JStr ''20260213-0.1''),
      (''timestamp'', JStr ''2026-02-13T08:00:00Z''),
      (''campbell_motto'', JStr ''Ne Obliviscaris''),
      (''entries'', JArr es)]"

section \<open>Lemmas on the operations\<close>

lemma then_do_Inr_iff: "then_do m f = Inr y \<longleftrightarrow> (\<exists>x. m = Inr x \<and> f x = Inr y)"
  by (cases m) (simp_all add: then_do_def)

lemma then_do_Inr [simp]: "then_do (Inr x) f = f x"
  by (simp add: then_do_def)

lemma then_do_Inl [simp]: "then_do (Inl e) f = Inl e"
  by (simp add: then_do_def)



lemma collect_ids_map_err: "collect_ids es = map_err entry_hash es"
  by (induction es) (simp_all add: entry_hash_def then_do_def split: sum.splits)


lemma map_err_Inr_map:
  "map_err f xs = Inr ys \<longleftrightarrow>
     (\<forall>x \<in> set xs. \<exists>y. f x = Inr y) \<and> ys = map (\<lambda>x. case f x of Inl e \<Rightarrow> undefined | Inr y \<Rightarrow> y) xs"
proof (induction xs arbitrary: ys)
  case Nil
  show ?case by auto
next
  case (Cons x xs)
  show ?case
    by (cases ys) (auto simp: then_do_Inr_iff Cons.IH)
qed

lemma map_err_set:
  "map_err f xs = Inr ys \<Longrightarrow> x \<in> set xs \<Longrightarrow> \<exists>y. f x = Inr y"
  by (auto simp: map_err_Inr_map)

lemma map_err_total:
  "(\<And>x. x \<in> set xs \<Longrightarrow> \<exists>y. f x = Inr y) \<Longrightarrow> \<exists>ys. map_err f xs = Inr ys"
  by (simp add: map_err_Inr_map)

lemma collect_ids_Inr:
  "collect_ids es = Inr hs \<longleftrightarrow> (\<forall>e \<in> set es. \<exists>h. entry_hash e = Inr h) \<and> hs = map the_hash es"
proof -
  have "(\<forall>e \<in> set es. \<exists>h. entry_hash e = Inr h) \<Longrightarrow>
        map (\<lambda>x. case entry_hash x of Inl e \<Rightarrow> undefined | Inr y \<Rightarrow> y) es = map the_hash es"
    by (auto simp: the_hash_def)
  then show ?thesis
    unfolding collect_ids_map_err map_err_Inr_map by auto
qed

lemma keys_Inr:
  "map_err timestamp_key xs = Inr ks \<longleftrightarrow>
     (\<forall>x \<in> set xs. \<exists>k. timestamp_key x = Inr k) \<and> ks = map the_key xs"
proof -
  have "(\<forall>x \<in> set xs. \<exists>k. timestamp_key x = Inr k) \<Longrightarrow>
        map (\<lambda>x. case timestamp_key x of Inl e \<Rightarrow> undefined | Inr y \<Rightarrow> y) xs = map the_key xs"
    by (auto simp: the_key_def)
  then show ?thesis
    unfolding map_err_Inr_map by auto
qed

lemma list_append_Inr:
  "list_append d k x = Inr d' \<longleftrightarrow>
     (\<exists>xs. map_of d k = Some (JArr xs) \<and> d' = AList.update k (JArr (xs @ [x])) d)"
  by (auto simp: list_append_def split: option.splits json.splits)

lemma merge_loop_shape:
  "merge_loop ids rs l = Inr l' \<Longrightarrow>
     (\<forall>e \<in> set rs. \<exists>h. entry_hash e = Inr h) \<and>
     (l' = l \<and> filter (fresh ids) rs = [] \<or>
      (\<exists>es. map_of l ''entries'' = Some (JArr es) \<and>
            l' = AList.update ''entries'' (JArr (es @ filter (fresh ids) rs)) l))"
proof (induction rs arbitrary: l)
  case Nil
  then show ?case by simp
next
  case (Cons entry rest)
  from Cons.prems obtain i h where i: "subscript entry ''id'' = Inr i" and h: "hash_key i = Inr h"
    and rest: "(if h \<notin> set ids then
         then_do (list_append l ''entries'' entry) (\<lambda>local'.
         then_do (subscript entry ''source'') (\<lambda>src.
         merge_loop ids rest local'))
       else merge_loop ids rest l) = Inr l'"
    by (auto simp: then_do_Inr_iff)
  have eh: "entry_hash entry = Inr h"
    by (simp add: entry_hash_def i h)
  show ?case
  proof (cases "h \<in> set ids")
    case True
    with rest have "merge_loop ids rest l = Inr l'" by simp
    from Cons.IH [OF this] show ?thesis
      using True eh by (auto simp: fresh_def)
  next
    case False
    with rest obtain es where es: "map_of l ''entries'' = Some (JArr es)"
      and loop: "merge_loop ids rest (AList.update ''entries'' (JArr (es @ [entry])) l) = Inr l'"
      by (auto simp: then_do_Inr_iff list_append_Inr)
    have fr: "fresh ids entry" using False eh by (simp add: fresh_def)
    from Cons.IH [OF loop] show ?thesis
      using es fr eh by (auto simp: update_conv')
  qed
qed

lemma list_sort_mset: "list_sort xs = Inr ys \<Longrightarrow> mset ys = mset xs"
  by (auto simp: list_sort_def then_do_Inr_iff split: if_splits)

lemma sorted_wrt_key:
  assumes "sorted (map f ys)" and "\<And>a b. a \<in> set ys \<Longrightarrow> b \<in> set ys \<Longrightarrow> f a \<le> f b \<Longrightarrow> R (g a) (g b)"
  shows "sorted_wrt R (map g ys)"
proof -
  from assms(1) have "sorted_wrt (\<lambda>a b. f a \<le> f b) ys"
    by (simp add: sorted_map)
  then have "sorted_wrt (\<lambda>a b. R (g a) (g b)) ys"
    by (rule sorted_wrt_mono_rel [rotated]) (use assms(2) in blast)
  then show ?thesis by (simp add: sorted_wrt_map)
qed

lemma list_sort_sorted:
  assumes "list_sort xs = Inr ys"
  shows "map_err timestamp_key ys = Inr (map the_key ys) \<and> sorted_wrt ts_le (map the_key ys)"
proof -
  from assms obtain ks where ks: "map_err timestamp_key xs = Inr ks"
    and branch: "(if length xs \<le> 1 then Inr xs
       else if list_all is_str ks then Inr (sort_key str_key xs)
       else if list_all is_num ks then Inr (sort_key num_key xs)
       else if list_ex is_arr ks then Inl Unsupported
       else Inl TypeError) = Inr ys"
    by (auto simp: list_sort_def then_do_Inr_iff)
  from ks have all: "\<forall>x \<in> set xs. \<exists>k. timestamp_key x = Inr k" and kmap: "ks = map the_key xs"
    by (simp_all add: keys_Inr)
  have "set ys = set xs"
    using list_sort_mset [OF assms] by (metis set_mset_mset)
  with all have keys: "map_err timestamp_key ys = Inr (map the_key ys)"
    by (simp add: keys_Inr)
  have "sorted_wrt ts_le (map the_key ys)"
  proof (cases "length xs \<le> 1")
    case True
    with branch have "ys = xs" by simp
    with True show ?thesis
      by (cases xs) (auto simp: Suc_le_eq)
  next
    case long: False
    show ?thesis
    proof (cases "list_all is_str ks")
      case True
      with long branch have ys: "ys = sort_key str_key xs" by simp
      have "sorted (map str_key ys)" by (simp add: ys)
      then show ?thesis
      proof (rule sorted_wrt_key)
        fix a b assume "a \<in> set ys" "b \<in> set ys" "str_key a \<le> str_key b"
        with True kmap ys show "ts_le (the_key a) (the_key b)"
          by (auto simp: list_all_iff ts_le_def str_key_def the_key_def split: sum.splits)
      qed
    next
      case nostr: False
      show ?thesis
      proof (cases "list_all is_num ks")
        case True
        with long nostr branch have ys: "ys = sort_key num_key xs" by simp
        have "sorted (map num_key ys)" by (simp add: ys)
        then show ?thesis
        proof (rule sorted_wrt_key)
          fix a b assume ab: "a \<in> set ys" "b \<in> set ys" "num_key a \<le> num_key b"
          from ab True kmap ys have "is_num (the_key a)" "is_num (the_key b)"
            by (auto simp: list_all_iff)
          then show "ts_le (the_key a) (the_key b)"
            using ab(3) by (cases "the_key a"; cases "the_key b")
              (auto simp: ts_le_def num_key_def the_key_def split: sum.splits if_splits)
        qed
      next
        case False
        with long nostr branch show ?thesis by (simp split: if_splits)
      qed
    qed
  qed
  with keys show ?thesis by simp
qed

lemma add_entry_without_entries:
  "map_of d ''entries'' = None \<Longrightarrow>
     add_entry d t c s md today n1 n2 = Inl (KeyError ''entries'')"
  by (simp add: add_entry_def dict_get_def list_append_def Let_def)

lemma sort_entries_Inr:
  "sort_entries d = Inr d' \<longleftrightarrow>
     (\<exists>xs ys. map_of d ''entries'' = Some (JArr xs) \<and> list_sort xs = Inr ys \<and>
        d' = AList.update ''entries'' (JArr ys) d)"
  by (auto simp: sort_entries_def then_do_Inr_iff split: option.splits json.splits)

lemma entries_of_update_entries [simp]:
  "entries_of (AList.update ''entries'' (JArr ys) d) = ys"
  by (simp add: entries_of_def update_conv')

lemma entries_of_update_timestamp [simp]:
  "entries_of (AList.update ''timestamp'' v d) = entries_of d"
  by (simp add: entries_of_def update_conv')

lemma entries_of_JArr: "map_of d ''entries'' = Some (JArr es) \<Longrightarrow> entries_of d = es"
  by (simp add: entries_of_def)

lemma merge_memories_Inr:
  assumes "merge_memories l r now = Inr d"
  obtains es rs ids ys where
    "map_of l ''entries'' = Some (JArr es)"
    "iterate (dict_get r ''entries'' (JArr [])) = Inr rs"
    "collect_ids es = Inr ids"
    "\<forall>e \<in> set rs. \<exists>h. entry_hash e = Inr h"
    "list_sort (es @ filter (fresh ids) rs) = Inr ys"
    "d = AList.update ''timestamp'' (JStr now) (AList.update ''entries'' (JArr ys) l)"
proof -
  from assms obtain les ids rs l1 l2 where
    les: "iterate (dict_get l ''entries'' (JArr [])) = Inr les"
    and ids: "collect_ids les = Inr ids"
    and rs: "iterate (dict_get r ''entries'' (JArr [])) = Inr rs"
    and loop: "merge_loop ids rs l = Inr l1"
    and srt: "sort_entries l1 = Inr l2"
    and d: "d = AList.update ''timestamp'' (JStr now) l2"
    by (auto simp: merge_memories_def then_do_Inr_iff)
  from srt obtain xs ys where xs: "map_of l1 ''entries'' = Some (JArr xs)"
    and ys: "list_sort xs = Inr ys" and l2: "l2 = AList.update ''entries'' (JArr ys) l1"
    by (auto simp: sort_entries_Inr)
  from merge_loop_shape [OF loop] have hs: "\<forall>e \<in> set rs. \<exists>h. entry_hash e = Inr h"
    and shape: "l1 = l \<and> filter (fresh ids) rs = [] \<or>
      (\<exists>es. map_of l ''entries'' = Some (JArr es) \<and>
            l1 = AList.update ''entries'' (JArr (es @ filter (fresh ids) rs)) l)"
    by simp_all
  from shape xs obtain es where es: "map_of l ''entries'' = Some (JArr es)"
    and xs_eq: "xs = es @ filter (fresh ids) rs"
    and l1: "AList.update ''entries'' (JArr ys) l1 = AList.update ''entries'' (JArr ys) l"
    by (auto simp: update_conv')
  from es les have "les = es" by (simp add: dict_get_def)
  with ids have "collect_ids es = Inr ids" by simp
  then show thesis
    using that [OF es rs _ hs] ys xs_eq d l2 l1 by simp
qed


lemma well_formed_entry_hash: "well_formed_entry e \<Longrightarrow> \<exists>s. entry_hash e = Inr (HStr s)"
  by (cases e) (auto simp: entry_hash_def has_str_def split: option.splits json.splits)

lemma well_formed_entry_source: "well_formed_entry e \<Longrightarrow> \<exists>s. subscript e ''source'' = Inr s"
  by (cases e) auto

lemma well_formed_entry_key: "well_formed_entry e \<Longrightarrow> \<exists>s. timestamp_key e = Inr (JStr s)"
  by (cases e) (auto simp: timestamp_key_def has_str_def split: option.splits json.splits)

lemma merge_loop_total:
  "map_of l ''entries'' = Some (JArr es) \<Longrightarrow> list_all well_formed_entry rs \<Longrightarrow>
     \<exists>l'. merge_loop ids rs l = Inr l'"
proof (induction rs arbitrary: l es)
  case Nil
  show ?case by simp
next
  case (Cons entry rest)
  from Cons.prems(2) have wf: "well_formed_entry entry" and rest: "list_all well_formed_entry rest"
    by simp_all
  from well_formed_entry_hash [OF wf] obtain s where "entry_hash entry = Inr (HStr s)" ..
  then obtain i where i: "subscript entry ''id'' = Inr i" and h: "hash_key i = Inr (HStr s)"
    by (auto simp: entry_hash_def then_do_Inr_iff)
  from well_formed_entry_source [OF wf] obtain src where src: "subscript entry ''source'' = Inr src" ..
  have app: "list_append l ''entries'' entry = Inr (AList.update ''entries'' (JArr (es @ [entry])) l)"
    using Cons.prems(1) by (simp add: list_append_Inr)
  have "map_of (AList.update ''entries'' (JArr (es @ [entry])) l) ''entries'' = Some (JArr (es @ [entry]))"
    by (simp add: update_conv')
  from Cons.IH [OF this rest] Cons.IH [OF Cons.prems(1) rest]
  show ?case by (simp add: i h src app)
qed

lemma list_sort_total:
  assumes "list_all well_formed_entry xs"
  shows "\<exists>ys. list_sort xs = Inr ys"
proof -
  from assms have all: "\<forall>x \<in> set xs. \<exists>s. timestamp_key x = Inr (JStr s)"
    by (auto simp: list_all_iff dest: well_formed_entry_key)
  then have ks: "map_err timestamp_key xs = Inr (map the_key xs)"
    by (auto simp: keys_Inr)
  from all have "list_all is_str (map the_key xs)"
    by (auto simp: list_all_iff the_key_def)
  then show ?thesis
    by (simp add: list_sort_def ks)
qed

lemma merge_returns:
  assumes "well_formed l" and "well_formed r"
  shows "\<exists>d. merge_memories l r now = Inr d"
proof -
  from assms(1) obtain es where es: "map_of l ''entries'' = Some (JArr es)"
    and wes: "list_all well_formed_entry es"
    by (auto simp: well_formed_def split: option.splits json.splits)
  from assms(2) obtain rs where rs: "map_of r ''entries'' = Some (JArr rs)"
    and wrs: "list_all well_formed_entry rs"
    by (auto simp: well_formed_def split: option.splits json.splits)
  from wes have "\<forall>e \<in> set es. \<exists>h. entry_hash e = Inr h"
    by (auto simp: list_all_iff dest: well_formed_entry_hash)
  then have ids: "collect_ids es = Inr (map the_hash es)"
    by (simp add: collect_ids_Inr)
  from merge_loop_total [OF es wrs] obtain l1 where loop: "merge_loop (map the_hash es) rs l = Inr l1" ..
  from merge_loop_shape [OF loop] es
  have l1: "map_of l1 ''entries'' = Some (JArr (es @ filter (fresh (map the_hash es)) rs))"
    by (auto simp: update_conv')
  from wes wrs have "list_all well_formed_entry (es @ filter (fresh (map the_hash es)) rs)"
    by (auto simp: list_all_iff)
  from list_sort_total [OF this] obtain ys
    where "list_sort (es @ filter (fresh (map the_hash es)) rs) = Inr ys" ..
  with l1 have "\<exists>l2. sort_entries l1 = Inr l2"
    by (simp add: sort_entries_Inr)
  then show ?thesis
    by (auto simp: merge_memories_def dict_get_def es rs ids loop)
qed

lemma remote_entries:
  assumes "iterate (dict_get r ''entries'' (JArr [])) = Inr rs"
    and "\<forall>e \<in> set rs. \<exists>h. entry_hash e = Inr h"
  shows "rs = entries_of r"
proof (cases "map_of r ''entries''")
  case None
  with assms(1) show ?thesis by (auto simp: dict_get_def entries_of_def)
next
  case (Some v)
  show ?thesis
  proof (cases v)
    case (JArr xs)
    with Some assms(1) show ?thesis by (auto simp: dict_get_def entries_of_def)
  next
    case (JObj kv)
    with Some assms(1) have rs: "rs = map (\<lambda>kv. JStr (fst kv)) kv"
      by (auto simp: dict_get_def)
    with assms(2) have "kv = []"
      by (cases kv) (auto simp: entry_hash_def)
    with rs Some JObj show ?thesis by (simp add: entries_of_def)
  next
    case (JStr s)
    with Some assms(1) have rs: "rs = map (\<lambda>c. JStr [c]) s"
      by (auto simp: dict_get_def)
    with assms(2) have "s = []"
      by (cases s) (auto simp: entry_hash_def)
    with rs Some JStr show ?thesis by (simp add: entries_of_def)
  qed (use Some assms(1) in \<open>auto simp: dict_get_def\<close>)
qed

lemma merge_ids_unique:
  assumes "ids_unique l" and "ids_unique r" and "merge_memories l r now = Inr d"
  shows "ids_unique d"
proof -
  from assms(3) obtain es rs ids ys where
    es: "map_of l ''entries'' = Some (JArr es)"
    and rs: "iterate (dict_get r ''entries'' (JArr [])) = Inr rs"
    and ids: "collect_ids es = Inr ids"
    and hs: "\<forall>e \<in> set rs. \<exists>h. entry_hash e = Inr h"
    and ys: "list_sort (es @ filter (fresh ids) rs) = Inr ys"
    and d: "d = AList.update ''timestamp'' (JStr now) (AList.update ''entries'' (JArr ys) l)"
    by (rule merge_memories_Inr)
  let ?new = "filter (fresh ids) rs"
  from ids have hes: "\<forall>e \<in> set es. \<exists>h. entry_hash e = Inr h" and ids_eq: "ids = map the_hash es"
    by (simp_all add: collect_ids_Inr)
  from assms(1) es ids have dl: "distinct ids"
    by (simp add: ids_unique_def entries_of_JArr)
  from remote_entries [OF rs hs] hs have "collect_ids (entries_of r) = Inr (map the_hash rs)"
    by (simp add: collect_ids_Inr)
  with assms(2) have "distinct (map the_hash rs)"
    by (simp add: ids_unique_def)
  then have dn: "distinct (map the_hash ?new)"
    by (rule distinct_map_filter)
  have disj: "set ids \<inter> set (map the_hash ?new) = {}"
    by (auto simp: fresh_def the_hash_def split: sum.splits)
  from dl dn disj have dist: "distinct (map the_hash (es @ ?new))"
    by (simp add: ids_eq)
  from list_sort_mset [OF ys] have m: "mset ys = mset (es @ ?new)" .
  then have "mset (map the_hash ys) = mset (map the_hash (es @ ?new))"
    by (metis mset_map)
  with dist have "distinct (map the_hash ys)"
    by (metis mset_eq_imp_distinct_iff)
  moreover from m have "set ys = set (es @ ?new)"
    by (metis set_mset_mset)
  with hes hs have "\<forall>e \<in> set ys. \<exists>h. entry_hash e = Inr h" by auto
  then have "collect_ids ys = Inr (map the_hash ys)"
    by (simp add: collect_ids_Inr)
  ultimately show ?thesis
    by (simp add: ids_unique_def d)
qed

lemma merge_sorted:
  assumes "merge_memories l r now = Inr d"
  shows "entries_sorted d"
proof -
  from assms obtain ys xs where "list_sort xs = Inr ys"
    and "d = AList.update ''timestamp'' (JStr now) (AList.update ''entries'' (JArr ys) l)"
    by (rule merge_memories_Inr)
  with list_sort_sorted [of xs ys] show ?thesis
    by (simp add: entries_sorted_def)
qed

lemma merge_self:
  assumes "merge_memories d d now = Inr d'"
  shows "mset (entries_of d') = mset (entries_of d)"
proof -
  from assms obtain es rs ids ys where
    es: "map_of d ''entries'' = Some (JArr es)"
    and rs: "iterate (dict_get d ''entries'' (JArr [])) = Inr rs"
    and ids: "collect_ids es = Inr ids"
    and ys: "list_sort (es @ filter (fresh ids) rs) = Inr ys"
    and d: "d' = AList.update ''timestamp'' (JStr now) (AList.update ''entries'' (JArr ys) d)"
    by (rule merge_memories_Inr)
  from es rs have "rs = es" by (simp add: dict_get_def)
  moreover from ids have hes: "\<forall>e \<in> set es. \<exists>h. entry_hash e = Inr h"
    and ids_eq: "ids = map the_hash es"
    by (simp_all add: collect_ids_Inr)
  have "\<not> fresh ids e" if e: "e \<in> set es" for e
  proof -
    from hes e obtain h where h: "entry_hash e = Inr h" by blast
    then have "the_hash e = h" by (simp add: the_hash_def)
    with e have "h \<in> set ids" by (auto simp: ids_eq)
    with h show ?thesis by (simp add: fresh_def)
  qed
  then have "filter (fresh ids) es = []"
    by (simp add: filter_empty_conv)
  ultimately have "list_sort es = Inr ys" using ys by simp
  from list_sort_mset [OF this] show ?thesis
    by (simp add: d entries_of_JArr [OF es])
qed


lemma existing_ids_total:
  "list_all well_formed_entry es \<Longrightarrow> \<exists>ids. existing_ids today es = Inr ids"
proof (induction es)
  case Nil
  show ?case by simp
next
  case (Cons e es)
  then obtain ids where ids: "existing_ids today es = Inr ids" by auto
  from Cons.prems have "well_formed_entry e" by simp
  then obtain s where "subscript e ''id'' = Inr (JStr s)"
    by (cases e) (auto simp: has_str_def split: option.splits json.splits)
  with ids show ?case by simp
qed

lemma add_entry_Inr:
  "add_entry m t c s md today n1 n2 = Inr m' \<longleftrightarrow>
     (\<exists>es ids. map_of m ''entries'' = Some (JArr es) \<and> existing_ids today es = Inr ids \<and>
        m' = AList.update ''timestamp'' (JStr n2)
               (AList.update ''entries''
                  (JArr (es @ [new_entry (today @ ''-'' @ format_03d (length ids + 1)) t c s md n1])) m))"
  by (auto simp: add_entry_def then_do_Inr_iff list_append_Inr dict_get_def Let_def)

lemma map_of_dict_merge:
  "map_of (dict_merge base extra) k =
     (case map_of (rev extra) k of None \<Rightarrow> map_of base k | Some v \<Rightarrow> Some v)"
proof (induction extra arbitrary: base)
  case Nil
  show ?case by (simp add: dict_merge_def)
next
  case (Cons kv extra)
  have "dict_merge base (kv # extra) = dict_merge (AList.update (fst kv) (snd kv) base) extra"
    by (simp add: dict_merge_def)
  then show ?case
    by (cases kv) (auto simp: Cons.IH update_conv' map_of_append map_add_def split: option.splits)
qed


lemma new_timestamp_default:
  "new_timestamp None n1 = JStr n1"
  "map_of m ''timestamp'' = None \<Longrightarrow> new_timestamp (Some m) n1 = JStr n1"
proof -
  show "new_timestamp None n1 = JStr n1"
    by (simp add: new_timestamp_def dict_get_def dict_merge_def)
  assume "map_of m ''timestamp'' = None"
  then have "map_of (rev m) ''timestamp'' = None"
    by (simp add: map_of_eq_None_iff)
  then show "new_timestamp (Some m) n1 = JStr n1"
    by (simp add: new_timestamp_def dict_get_def map_of_dict_merge)
qed


declare decimal.simps [simp del]










lemma add_entry_returns:
  assumes "well_formed m"
  shows "\<exists>m'. add_entry m t c s md today n1 n2 = Inr m'"
proof -
  from assms obtain es where es: "map_of m ''entries'' = Some (JArr es)"
    and wes: "list_all well_formed_entry es"
    by (auto simp: well_formed_def split: option.splits json.splits)
  from existing_ids_total [OF wes] obtain ids where "existing_ids today es = Inr ids" ..
  with es show ?thesis by (auto simp: add_entry_Inr)
qed



lemma save_memory_True:
  assumes "save_memory fs doc path = (fs', True)"
  shows "nodes fs' path = Some (JsonText (JObj doc))"
  using assms
  by (auto simp: save_memory_def split: option.splits outcome.splits if_splits)

lemma load_memory_document:
  "nodes fs path = Some (JsonText (JObj doc)) \<Longrightarrow>
   dict_get doc ''campbell_motto'' JNull = JStr campbell_motto \<Longrightarrow>
   load_memory fs path = Inr (Some doc)"
  by (simp add: load_memory_def)

lemma load_memory_None_iff:
  "load_memory fs path = Inr None \<longleftrightarrow>
     nodes fs path = None \<or> nodes fs path = Some Malformed \<or>
     (\<exists>doc. nodes fs path = Some (JsonText (JObj doc)) \<and>
        dict_get doc ''campbell_motto'' JNull \<noteq> JStr campbell_motto)"
  by (auto simp: load_memory_def split: option.splits node.splits json.splits)

lemma load_memory_Some_iff:
  "load_memory fs path = Inr (Some doc) \<longleftrightarrow>
     nodes fs path = Some (JsonText (JObj doc)) \<and>
     dict_get doc ''campbell_motto'' JNull = JStr campbell_motto"
  by (auto simp: load_memory_def split: option.splits node.splits json.splits)

lemma load_memory_raises_iff:
  "(\<exists>e. load_memory fs path = Inl e) \<longleftrightarrow>
     nodes fs path = Some Directory \<or>
     (\<exists>v. nodes fs path = Some (JsonText v) \<and> (\<forall>doc. v \<noteq> JObj doc))"
  by (auto simp: load_memory_def split: option.splits node.splits json.splits)

lemma os_rename_Some:
  assumes "os_rename fs src dst = Some fs1"
  shows "nodes fs1 = (nodes fs)(dst := nodes fs src, src := None)"
    and "write_outcome fs1 = write_outcome fs"
  using assms
  by (auto simp: os_rename_def split: if_splits option.splits node.splits)

lemma sync_new_document:
  assumes "load_memory fs local_path = Inr None"
  shows "\<exists>doc. sync_with_remote fs local_path remote_url source_id now0 today now1 now2 =
           Inr (save_memory fs doc local_path) \<and>
         add_entry (new_document now0) ''action'' (''Memory sync attempted with '' @ remote_url)
           source_id
           (Some [(''sync_status'', JStr ''local_only''), (''remote_url'', JStr remote_url)])
           today now1 now2 = Inr doc"
proof -
  let ?r = "add_entry (new_document now0) ''action'' (''Memory sync attempted with '' @ remote_url)
           source_id
           (Some [(''sync_status'', JStr ''local_only''), (''remote_url'', JStr remote_url)])
           today now1 now2"
  have "well_formed (new_document now0)"
    by (simp add: well_formed_def new_document_def)
  from add_entry_returns [OF this] obtain doc where doc: "?r = Inr doc" by blast
  have "sync_with_remote fs local_path remote_url source_id now0 today now1 now2 =
          then_do ?r (\<lambda>m. Inr (save_memory fs m local_path))"
    by (simp add: sync_with_remote_def assms)
  with doc show ?thesis by simp
qed

section \<open>The claims\<close>

text \<open>
  C1 (as amended). When the local and the remote document each have unique entry ids,
  the document that \<^verbatim>\<open>merge_memories\<close> returns has unique entry ids; and on well-formed
  documents it does return one.
\<close>

theorem merge_memories_keeps_ids_unique:
  assumes "ids_unique local" and "ids_unique remote"
  shows "(well_formed local \<and> well_formed remote \<longrightarrow> (\<exists>d. merge_memories local remote now = Inr d)) \<and>
         (\<forall>d. merge_memories local remote now = Inr d \<longrightarrow> ids_unique d)"
  using assms merge_returns [of local remote now] merge_ids_unique [of local remote now]
  by blast

theorem merge_memories_keeps_ids_unique_witness:
  "ids_unique (mk_doc [mk_entry ''20260213-001'' ''2026-02-13T09:00:00Z'']) \<and>
   ids_unique (mk_doc [mk_entry ''20260212-001'' ''2026-02-12T21:30:00Z'',
                       mk_entry ''20260213-001'' ''2026-02-13T09:00:00Z'']) \<and>
   (\<exists>d. merge_memories (mk_doc [mk_entry ''20260213-001'' ''2026-02-13T09:00:00Z''])
          (mk_doc [mk_entry ''20260212-001'' ''2026-02-12T21:30:00Z'',
                   mk_entry ''20260213-001'' ''2026-02-13T09:00:00Z''])
          ''2026-02-13T10:00:00Z'' = Inr d \<and> ids_unique d)"
proof -
  let ?l = "mk_doc [mk_entry ''20260213-001'' ''2026-02-13T09:00:00Z'']"
  let ?r = "mk_doc [mk_entry ''20260212-001'' ''2026-02-12T21:30:00Z'',
                    mk_entry ''20260213-001'' ''2026-02-13T09:00:00Z'']"
  have l: "ids_unique ?l" by code_simp
  have r: "ids_unique ?r" by code_simp
  have wl: "well_formed ?l" by code_simp
  have wr: "well_formed ?r" by code_simp
  from merge_memories_keeps_ids_unique [OF l r, of "''2026-02-13T10:00:00Z''"] l r wl wr
  show ?thesis by blast
qed

theorem merge_and_append_duplicate_ids:
  "ids_unique (mk_doc []) \<and>
   (case merge_memories (mk_doc [])
           (mk_doc [mk_entry ''20260213-001'' ''2026-02-13T09:00:00Z'',
                    mk_entry ''20260213-001'' ''2026-02-13T09:05:00Z''])
           ''2026-02-13T10:00:00Z'' of
      Inl e \<Rightarrow> False
    | Inr d \<Rightarrow> \<not> ids_unique d) \<and>
   ids_unique (mk_doc [mk_entry ''20260213-001'' ''2026-02-13T09:00:00Z'',
                       mk_entry ''20260213-003'' ''2026-02-13T09:05:00Z'']) \<and>
   (case add_entry (mk_doc [mk_entry ''20260213-001'' ''2026-02-13T09:00:00Z'',
                            mk_entry ''20260213-003'' ''2026-02-13T09:05:00Z''])
           ''note'' ''hello'' ''heron-02'' None
           ''20260213'' ''2026-02-13T10:00:00Z'' ''2026-02-13T10:00:01Z'' of
      Inl e \<Rightarrow> False
    | Inr d \<Rightarrow> \<not> ids_unique d)"
  by code_simp






text \<open>
  C4. The document with the ids 20260213-001 and 20260213-003 is well-formed and has
  unique ids; on 20260213 \<^verbatim>\<open>add_entry\<close> counts two ids of the day and gives the new
  entry the id 20260213-003 again: its sequence number is not greater than the
  greatest of the day.
\<close>

theorem add_entry_sequence_not_increasing:
  "well_formed (mk_doc [mk_entry ''20260213-001'' ''2026-02-13T09:00:00Z'',
                        mk_entry ''20260213-003'' ''2026-02-13T09:05:00Z'']) \<and>
   (case add_entry (mk_doc [mk_entry ''20260213-001'' ''2026-02-13T09:00:00Z'',
                            mk_entry ''20260213-003'' ''2026-02-13T09:05:00Z''])
           ''note'' ''hello'' ''heron-02'' None
           ''20260213'' ''2026-02-13T10:00:00Z'' ''2026-02-13T10:00:01Z'' of
      Inl e \<Rightarrow> False
    | Inr m' \<Rightarrow>
        map (\<lambda>e. day_sequence ''20260213'' (entry_id_str e)) (entries_of m') =
          [Some 1, Some 3, Some 3])"
  by code_simp

text \<open>
  C5. Merging a document with itself adds no entry: the entries of the result are those
  of the document, re-sorted; and on a well-formed document the merge returns.
\<close>

theorem merge_with_itself_adds_nothing:
  "(well_formed d \<longrightarrow> (\<exists>d'. merge_memories d d now = Inr d')) \<and>
   (\<forall>d'. merge_memories d d now = Inr d' \<longrightarrow>
      mset (entries_of d') = mset (entries_of d) \<and> entries_sorted d')"
  using merge_returns [of d d now] merge_self [of d now] merge_sorted [of d d now]
  by blast

theorem merge_with_itself_adds_nothing_witness:
  "\<exists>d'. merge_memories
          (mk_doc [mk_entry ''20260213-001'' ''2026-02-13T09:00:00Z'',
                   mk_entry ''20260212-001'' ''2026-02-12T21:30:00Z''])
          (mk_doc [mk_entry ''20260213-001'' ''2026-02-13T09:00:00Z'',
                   mk_entry ''20260212-001'' ''2026-02-12T21:30:00Z''])
          ''2026-02-13T10:00:00Z'' = Inr d' \<and>
        mset (entries_of d') =
          mset [mk_entry ''20260213-001'' ''2026-02-13T09:00:00Z'',
                mk_entry ''20260212-001'' ''2026-02-12T21:30:00Z'']"
proof -
  let ?d = "mk_doc [mk_entry ''20260213-001'' ''2026-02-13T09:00:00Z'',
                    mk_entry ''20260212-001'' ''2026-02-12T21:30:00Z'']"
  have w: "well_formed ?d" by code_simp
  have e: "entries_of ?d = [mk_entry ''20260213-001'' ''2026-02-13T09:00:00Z'',
                            mk_entry ''20260212-001'' ''2026-02-12T21:30:00Z'']"
    by (simp add: mk_doc_def entries_of_def)
  from merge_with_itself_adds_nothing [of ?d "''2026-02-13T10:00:00Z''"] w
  show ?thesis unfolding e by blast
qed

text \<open>
  C6 (as amended). When \<^verbatim>\<open>save_memory\<close> reports success for a document that carries
  the motto, \<^verbatim>\<open>load_memory\<close> on the same path then returns that document.
\<close>

theorem save_then_load_returns_document:
  assumes "dict_get doc ''campbell_motto'' JNull = JStr campbell_motto"
    and "save_memory fs doc path = (fs', True)"
  shows "load_memory fs' path = Inr (Some doc)"
  using save_memory_True [OF assms(2)] assms(1) by (rule load_memory_document)

theorem save_then_load_returns_document_witness:
  "dict_get (mk_doc [mk_entry ''20260213-001'' ''2026-02-13T09:00:00Z''])
     ''campbell_motto'' JNull = JStr campbell_motto \<and>
   snd (save_memory (disk ''memory.json'' Malformed)
          (mk_doc [mk_entry ''20260213-001'' ''2026-02-13T09:00:00Z'']) ''memory.json'') \<and>
   load_memory
     (fst (save_memory (disk ''memory.json'' Malformed)
             (mk_doc [mk_entry ''20260213-001'' ''2026-02-13T09:00:00Z'']) ''memory.json''))
     ''memory.json'' = Inr (Some (mk_doc [mk_entry ''20260213-001'' ''2026-02-13T09:00:00Z'']))"
proof -
  let ?d = "mk_doc [mk_entry ''20260213-001'' ''2026-02-13T09:00:00Z'']"
  let ?s = "save_memory (disk ''memory.json'' Malformed) ?d ''memory.json''"
  have m: "dict_get ?d ''campbell_motto'' JNull = JStr campbell_motto"
    by (simp add: mk_doc_def dict_get_def campbell_motto_def)
  have ok: "snd ?s"
    by (simp add: save_memory_def os_rename_def disk_def)
  then have "?s = (fst ?s, True)"
    by (cases ?s) simp
  from save_then_load_returns_document [OF m this] m ok show ?thesis by simp
qed

theorem save_fails_then_load_returns_none:
  "dict_get (mk_doc []) ''campbell_motto'' JNull = JStr campbell_motto \<and>
   \<not> snd (save_memory ((disk ''memory.json'' Malformed)\<lparr>write_outcome := \<lambda>p. OpenFails\<rparr>)
            (mk_doc []) ''memory.json'') \<and>
   load_memory
     (fst (save_memory ((disk ''memory.json'' Malformed)\<lparr>write_outcome := \<lambda>p. OpenFails\<rparr>)
             (mk_doc []) ''memory.json''))
     ''memory.json'' = Inr None"
  by (simp add: mk_doc_def dict_get_def campbell_motto_def save_memory_def os_rename_def
      disk_def load_memory_def)

text \<open>
  C7. A file that holds the JSON text \<^verbatim>\<open>[]\<close> exists and parses; \<^verbatim>\<open>load_memory\<close>
  neither returns \<^verbatim>\<open>None\<close> nor a document on it: \<^verbatim>\<open>memory.get\<close> raises
  \<^verbatim>\<open>AttributeError\<close>, which the \<^verbatim>\<open>except\<close> clause does not catch.
\<close>

theorem load_memory_raises_on_json_list:
  "load_memory (disk ''memory.json'' (JsonText (JArr []))) ''memory.json'' = Inl AttributeError"
  by (simp add: load_memory_def disk_def)

text \<open>
  C8. When a file exists at the path and the rename succeeds, \<^verbatim>\<open>save_memory\<close> leaves
  what was at the path under the path followed by \<^verbatim>\<open>.backup\<close>, whatever was there
  before. When the write then succeeds, the path holds the new document and the result
  is \<^verbatim>\<open>True\<close>; when it fails, the result is \<^verbatim>\<open>False\<close>, the backup stays, and the path
  does not get the old file back. When the rename itself fails, the result is \<^verbatim>\<open>False\<close>
  and nothing changes.
\<close>

theorem save_memory_renames_to_backup:
  assumes "nodes fs path = Some n"
  shows "(os_rename fs path (path @ ''.backup'') = None \<longrightarrow>
            save_memory fs doc path = (fs, False)) \<and>
         (os_rename fs path (path @ ''.backup'') \<noteq> None \<longrightarrow>
            nodes (fst (save_memory fs doc path)) (path @ ''.backup'') = Some n \<and>
            (case write_outcome fs path of
               WriteOk \<Rightarrow>
                 snd (save_memory fs doc path) \<and>
                 nodes (fst (save_memory fs doc path)) path = Some (JsonText (JObj doc))
             | OpenFails \<Rightarrow>
                 \<not> snd (save_memory fs doc path) \<and>
                 nodes (fst (save_memory fs doc path)) path = None
             | DumpFails \<Rightarrow>
                 \<not> snd (save_memory fs doc path) \<and>
                 nodes (fst (save_memory fs doc path)) path = Some Malformed))"
proof (intro conjI impI)
  assume "os_rename fs path (path @ ''.backup'') = None"
  with assms show "save_memory fs doc path = (fs, False)"
    by (simp add: save_memory_def)
next
  assume "os_rename fs path (path @ ''.backup'') \<noteq> None"
  then obtain fs1 where r: "os_rename fs path (path @ ''.backup'') = Some fs1" by blast
  note n1 = os_rename_Some [OF r]
  have ne: "path @ ''.backup'' \<noteq> path" by simp
  have s: "save_memory fs doc path =
      (case write_outcome fs path of
         WriteOk \<Rightarrow> (fs1\<lparr>nodes := (nodes fs1)(path := Some (JsonText (JObj doc)))\<rparr>, True)
       | OpenFails \<Rightarrow> (fs1, False)
       | DumpFails \<Rightarrow> (fs1\<lparr>nodes := (nodes fs1)(path := Some Malformed)\<rparr>, False))"
    using assms by (simp add: save_memory_def r n1(2))
  show "nodes (fst (save_memory fs doc path)) (path @ ''.backup'') = Some n"
    using assms ne by (simp add: s n1(1) split: outcome.splits)
  show "case write_outcome fs path of
          WriteOk \<Rightarrow>
            snd (save_memory fs doc path) \<and>
            nodes (fst (save_memory fs doc path)) path = Some (JsonText (JObj doc))
        | OpenFails \<Rightarrow>
            \<not> snd (save_memory fs doc path) \<and>
            nodes (fst (save_memory fs doc path)) path = None
        | DumpFails \<Rightarrow>
            \<not> snd (save_memory fs doc path) \<and>
            nodes (fst (save_memory fs doc path)) path = Some Malformed"
    by (simp add: s n1(1) split: outcome.splits)
qed

theorem save_memory_renames_to_backup_witness:
  "nodes ((disk ''memory.json'' (JsonText (JObj (mk_doc []))))
            \<lparr>nodes := (\<lambda>p. if p = ''memory.json'' then Some (JsonText (JObj (mk_doc [])))
                            else if p = ''memory.json.backup'' then Some Malformed else None),
             write_outcome := \<lambda>p. OpenFails\<rparr>) ''memory.json''
     = Some (JsonText (JObj (mk_doc []))) \<and>
   nodes (fst (save_memory
           ((disk ''memory.json'' (JsonText (JObj (mk_doc []))))
              \<lparr>nodes := (\<lambda>p. if p = ''memory.json'' then Some (JsonText (JObj (mk_doc [])))
                              else if p = ''memory.json.backup'' then Some Malformed else None),
               write_outcome := \<lambda>p. OpenFails\<rparr>)
           (mk_doc [mk_entry ''20260213-001'' ''2026-02-13T09:00:00Z'']) ''memory.json''))
     ''memory.json.backup'' = Some (JsonText (JObj (mk_doc []))) \<and>
   \<not> snd (save_memory
           ((disk ''memory.json'' (JsonText (JObj (mk_doc []))))
              \<lparr>nodes := (\<lambda>p. if p = ''memory.json'' then Some (JsonText (JObj (mk_doc [])))
                              else if p = ''memory.json.backup'' then Some Malformed else None),
               write_outcome := \<lambda>p. OpenFails\<rparr>)
           (mk_doc [mk_entry ''20260213-001'' ''2026-02-13T09:00:00Z'']) ''memory.json'') \<and>
   nodes (fst (save_memory
           ((disk ''memory.json'' (JsonText (JObj (mk_doc []))))
              \<lparr>nodes := (\<lambda>p. if p = ''memory.json'' then Some (JsonText (JObj (mk_doc [])))
                              else if p = ''memory.json.backup'' then Some Malformed else None),
               write_outcome := \<lambda>p. OpenFails\<rparr>)
           (mk_doc [mk_entry ''20260213-001'' ''2026-02-13T09:00:00Z'']) ''memory.json''))
     ''memory.json'' = None"
proof -
  let ?fs = "(disk ''memory.json'' (JsonText (JObj (mk_doc []))))
            \<lparr>nodes := (\<lambda>p. if p = ''memory.json'' then Some (JsonText (JObj (mk_doc [])))
                            else if p = ''memory.json.backup'' then Some Malformed else None),
             write_outcome := \<lambda>p. OpenFails\<rparr>"
  have n: "nodes ?fs ''memory.json'' = Some (JsonText (JObj (mk_doc [])))"
    by simp
  have r: "os_rename ?fs ''memory.json'' (''memory.json'' @ ''.backup'') \<noteq> None"
    by (simp add: os_rename_def disk_def)
  have w: "write_outcome ?fs ''memory.json'' = OpenFails"
    by simp
  from save_memory_renames_to_backup
    [OF n, of "mk_doc [mk_entry ''20260213-001'' ''2026-02-13T09:00:00Z'']"] r n
  show ?thesis unfolding w by simp
qed

text \<open>
  C9. With a local file that holds the JSON text \<^verbatim>\<open>[]\<close>, \<^verbatim>\<open>sync_with_remote\<close> does not
  create a new document: the \<^verbatim>\<open>AttributeError\<close> of \<^verbatim>\<open>load_memory\<close> leaves it, whatever
  the other arguments are.
\<close>

theorem sync_raises_on_json_list:
  "sync_with_remote (disk ''memory.json'' (JsonText (JArr []))) ''memory.json''
     remote_url source_id now0 today now1 now2 = Inl AttributeError"
  by (simp add: sync_with_remote_def load_memory_def disk_def)

text \<open>
  C10. Some document that \<^verbatim>\<open>load_memory\<close> accepts (valid JSON, the right motto) makes
  \<^verbatim>\<open>add_entry\<close> raise: without an \<^verbatim>\<open>entries\<close> field the ids are counted against the
  empty default, and \<^verbatim>\<open>memory['entries'].append\<close> then raises \<^verbatim>\<open>KeyError\<close>, whatever
  the other arguments are.
\<close>

theorem append_raises_on_loaded_document:
  "\<exists>fs path d. load_memory fs path = Inr (Some d) \<and>
     (\<forall>t c s md today n1 n2. add_entry d t c s md today n1 n2 = Inl (KeyError ''entries''))"
proof (intro exI conjI allI)
  show "load_memory (disk ''memory.json'' (JsonText (JObj [(''campbell_motto'', JStr ''Ne Obliviscaris'')])))
          ''memory.json'' = Inr (Some [(''campbell_motto'', JStr ''Ne Obliviscaris'')])"
    by (simp add: load_memory_def disk_def dict_get_def campbell_motto_def)
  show "add_entry [(''campbell_motto'', JStr ''Ne Obliviscaris'')] t c s md today n1 n2 =
          Inl (KeyError ''entries'')" for t c s md today n1 n2
    by (rule add_entry_without_entries) simp
qed

end
